theory Spec2Isabelle
  imports Main
begin

section \<open>Errors\<close>

text \<open>
  Every \<^verbatim>\<open>raise\<close> of \<^verbatim>\<open>server.py\<close> that the modelled functions can reach is one
  constructor; the message of the source is given beside it. An exception that an
  external library raises (the archive libraries, pandas, the operating system, the
  store) is a \<open>LibraryError\<close>.
\<close>

datatype error =
    ChunkSizeNotPositive
      \<comment> \<open>\<^verbatim>\<open>ValueError("chunk_size must be positive")\<close>\<close>
  | OverlapNegative
      \<comment> \<open>\<^verbatim>\<open>ValueError("overlap must be non-negative")\<close>\<close>
  | DocumentsEmpty
      \<comment> \<open>\<^verbatim>\<open>ValueError("The 'documents' list cannot be empty.")\<close>\<close>
  | IdsEmpty
      \<comment> \<open>\<^verbatim>\<open>ValueError("The 'ids' list is required and cannot be empty.")\<close>\<close>
  | BlankId
      \<comment> \<open>\<^verbatim>\<open>ValueError("IDs cannot be empty strings.")\<close>\<close>
  | LengthMismatch nat nat
      \<comment> \<open>\<^verbatim>\<open>ValueError("Number of ids (..) must match number of documents (..).")\<close>\<close>
  | DuplicateIds string "string list"
      \<comment> \<open>\<^verbatim>\<open>ValueError("The following IDs already exist in collection ..")\<close>\<close>
  | AddFailed string error
      \<comment> \<open>\<^verbatim>\<open>Exception("Failed to add documents to collection ..") from e\<close>\<close>
  | UpdateIdsEmpty
      \<comment> \<open>\<^verbatim>\<open>ValueError("The 'ids' list cannot be empty.")\<close>\<close>
  | UpdateNothing
      \<comment> \<open>\<^verbatim>\<open>ValueError("At least one of 'embeddings', 'metadatas', or 'documents' ..")\<close>\<close>
  | UpdateMetadatasLength
      \<comment> \<open>\<^verbatim>\<open>ValueError("Length of 'metadatas' list must match length of 'ids' list.")\<close>\<close>
  | UpdateDocumentsLength
      \<comment> \<open>\<^verbatim>\<open>ValueError("Length of 'documents' list must match length of 'ids' list.")\<close>\<close>
  | GetCollectionFailed string
      \<comment> \<open>\<^verbatim>\<open>Exception("Failed to get collection ..") from e\<close>\<close>
  | ArchiveTooLarge string
      \<comment> \<open>\<^verbatim>\<open>Exception("Archive .. is too large (>15MB)")\<close>\<close>
  | UnsupportedArchiveType string
      \<comment> \<open>\<^verbatim>\<open>Exception("Unsupported archive type: ..")\<close>\<close>
  | NoVectorizableFiles
      \<comment> \<open>\<^verbatim>\<open>Exception("No .csv, .txt, or .log files found in provided paths ..")\<close>\<close>
  | LibraryError string

section \<open>Python slicing\<close>

text \<open>
  A text is a list of characters, one element per code point, so that \<open>length\<close> is
  Python's \<^verbatim>\<open>len\<close>. Python integers are unbounded: \<open>int\<close>.

  \<^verbatim>\<open>text[i:j]\<close>: a negative index counts from the end, and both indices are clamped
  to the range of the text.
\<close>

definition py_index :: "int \<Rightarrow> nat \<Rightarrow> nat" where
  "py_index i n = (if i < 0 then nat (int n + i) else min (nat i) n)"

definition py_slice :: "'a list \<Rightarrow> int \<Rightarrow> int \<Rightarrow> 'a list" where
  "py_slice xs i j =
     (let a = py_index i (length xs); b = py_index j (length xs)
      in take (b - a) (drop a xs))"

section \<open>\<^verbatim>\<open>chunk_text\<close>\<close>

text \<open>
  The \<^verbatim>\<open>while start < text_length\<close> loop of \<^verbatim>\<open>chunk_text\<close>, with the cursor
  \<open>start\<close> and the list \<open>chunks\<close> as its state. The source does not bound \<open>overlap\<close>
  by \<open>chunk_size\<close>, and with \<open>overlap \<ge> chunk_size\<close> the cursor does not advance: the
  loop is a partial function, \<open>None\<close> standing for a run that never returns.
\<close>

partial_function (option) chunk_loop ::
  "string \<Rightarrow> int \<Rightarrow> int \<Rightarrow> int \<Rightarrow> string list \<Rightarrow> string list option" where
  "chunk_loop text chunk_size overlap start chunks =
     (if start < int (length text) then
        (let end = min (start + chunk_size) (int (length text));
             chunks' = chunks @ [py_slice text start end]
         in if end = int (length text) then Some chunks'
            else chunk_loop text chunk_size overlap (end - overlap) chunks')
      else Some chunks)"

definition chunk_text :: "string \<Rightarrow> int \<Rightarrow> int \<Rightarrow> (error + string list) option" where
  "chunk_text text chunk_size overlap =
     (if chunk_size \<le> 0 then Some (Inl ChunkSizeNotPositive)
      else if overlap < 0 then Some (Inl OverlapNegative)
      else map_option Inr (chunk_loop text chunk_size overlap 0 []))"

text \<open>
  The windows \<open>[start, end)\<close> that the loop visits when \<open>ov < sz\<close>, as natural
  numbers: the cursor starts at the given position, the window ends at
  \<open>min (start + sz) len\<close>, and the next cursor is \<open>end - ov\<close>. This function is not
  part of the source; it names the positions of the pieces for the statements below,
  and \<open>chunk_loop_windows\<close> proves that the loop of the source emits exactly the text
  of these windows.
\<close>

function chunk_windows :: "nat \<Rightarrow> nat \<Rightarrow> nat \<Rightarrow> nat \<Rightarrow> (nat \<times> nat) list" where
  "chunk_windows len sz ov start =
     (if start < len \<and> ov < sz then
        (let e = min (start + sz) len
         in (start, e) # (if e = len then [] else chunk_windows len sz ov (e - ov)))
      else [])"
  by pat_completeness auto
termination
  by (relation "measure (\<lambda>(len, sz, ov, start). len - start)") (auto simp: min_def split: if_splits)

declare chunk_windows.simps [simp del]

definition window_text :: "string \<Rightarrow> nat \<times> nat \<Rightarrow> string" where
  "window_text text w = take (snd w - fst w) (drop (fst w) text)"

definition reassemble :: "nat \<Rightarrow> string list \<Rightarrow> string" where
  "reassemble ov ps = (case ps of [] \<Rightarrow> [] | p # qs \<Rightarrow> p @ concat (map (drop ov) qs))"

section \<open>Strings and paths of the Python library\<close>

text \<open>
  A character is one of the 256 values of \<open>char\<close>; \<^verbatim>\<open>str.isspace\<close> and
  \<^verbatim>\<open>str.lower\<close> are given on these code points.
\<close>

definition py_isspace :: "char \<Rightarrow> bool" where
  "py_isspace c =
     (let n = (of_char c :: nat)
      in (9 \<le> n \<and> n \<le> 13) \<or> (28 \<le> n \<and> n \<le> 32) \<or> n = 133 \<or> n = 160)"

definition py_strip :: "string \<Rightarrow> string" where
  "py_strip s = rev (dropWhile py_isspace (rev (dropWhile py_isspace s)))"

definition lower_char :: "char \<Rightarrow> char" where
  "lower_char c =
     (let n = (of_char c :: nat)
      in if (65 \<le> n \<and> n \<le> 90) \<or> (192 \<le> n \<and> n \<le> 222 \<and> n \<noteq> 215)
         then char_of (n + 32) else c)"

definition py_lower :: "string \<Rightarrow> string" where
  "py_lower s = map lower_char s"

definition endswith :: "string \<Rightarrow> string \<Rightarrow> bool" where
  "endswith s suffix =
     (length suffix \<le> length s \<and> drop (length s - length suffix) s = suffix)"

text \<open>\<^verbatim>\<open>str(i)\<close> of a non-negative integer, as the f-strings of the ids use it.\<close>

fun str_nat :: "nat \<Rightarrow> string" where
  "str_nat n =
     (if n < 10 then [char_of (48 + n)]
      else str_nat (n div 10) @ [char_of (48 + n mod 10)])"

declare str_nat.simps [simp del]

text \<open>
  \<^verbatim>\<open>pathlib.Path(p).name\<close>, \<^verbatim>\<open>.suffix\<close> and \<^verbatim>\<open>.stem\<close>: the name is the final
  component; with \<open>i\<close> the position of the last dot of the name, the suffix is
  \<^verbatim>\<open>name[i:]\<close> and the stem \<^verbatim>\<open>name[:i]\<close> when \<open>0 < i < len(name) - 1\<close>, and
  otherwise the suffix is empty and the stem is the name. The paths given to the
  functions below are taken as already expanded and resolved.
\<close>

definition path_name :: "string \<Rightarrow> string" where
  "path_name p = rev (takeWhile (\<lambda>c. c \<noteq> CHR ''/'') (rev p))"

definition after_last_dot :: "string \<Rightarrow> string" where
  "after_last_dot name = rev (takeWhile (\<lambda>c. c \<noteq> CHR ''.'') (rev name))"

definition has_suffix :: "string \<Rightarrow> bool" where
  "has_suffix name =
     (CHR ''.'' \<in> set name \<and> after_last_dot name \<noteq> []
      \<and> Suc (length (after_last_dot name)) < length name)"

definition path_suffix :: "string \<Rightarrow> string" where
  "path_suffix p =
     (let name = path_name p
      in if has_suffix name then CHR ''.'' # after_last_dot name else [])"

definition path_stem :: "string \<Rightarrow> string" where
  "path_stem p =
     (let name = path_name p
      in if has_suffix name
         then take (length name - Suc (length (after_last_dot name))) name
         else name)"

definition os_path_join :: "string \<Rightarrow> string \<Rightarrow> string" where
  "os_path_join a b =
     (if b \<noteq> [] \<and> hd b = CHR ''/'' then b
      else if a = [] \<or> last a = CHR ''/'' then a @ b
      else a @ ''/'' @ b)"

text \<open>\<^verbatim>\<open>[xs[i:i+n] for i in range(0, len(xs), n)]\<close>, for \<open>n > 0\<close>.\<close>

function slices :: "nat \<Rightarrow> 'a list \<Rightarrow> 'a list list" where
  "slices n xs = (if n = 0 \<or> xs = [] then [] else take n xs # slices n (drop n xs))"
  by pat_completeness auto
termination
  by (relation "measure (\<lambda>(n, xs). length xs)") auto

declare slices.simps [simp del]

section \<open>The document store\<close>

text \<open>
  The store is the external collaborator (ChromaDB). A collection holds records
  \<open>(id, document, metadata)\<close> in insertion order; the store maps collection names to
  collections. Its operations follow the interface the specification gives for the
  collaborator: \<^verbatim>\<open>add\<close> fails when an id is already present (or is repeated in the
  call), \<^verbatim>\<open>update\<close> rewrites the records whose id is present and ignores the other
  ids, and \<^verbatim>\<open>get(include=[])["ids"]\<close> lists the ids.
\<close>

datatype meta_value = MStr string | MInt nat

type_synonym metadata = "(string \<times> meta_value) list"

type_synonym doc_record = "string \<times> string \<times> metadata option"

type_synonym collection = "doc_record list"

text \<open>
  The world the tools act on: the collections of the store, the scratch directories
  that exist (each \<^verbatim>\<open>tempfile.TemporaryDirectory()\<close> gets the next number), and the
  lines printed.
\<close>

record world =
  collections :: "string \<rightharpoonup> collection"
  tmp_live :: "nat list"
  tmp_next :: nat
  printed :: "(string \<times> error) list"

definition get_or_create_collection :: "world \<Rightarrow> string \<Rightarrow> collection \<times> world" where
  "get_or_create_collection w name =
     (case collections w name of
        Some c \<Rightarrow> (c, w)
      | None \<Rightarrow> ([], w\<lparr>collections := (collections w)(name \<mapsto> [])\<rparr>))"

definition collection_ids :: "collection \<Rightarrow> string list" where
  "collection_ids c = map fst c"

definition collection_add ::
  "collection \<Rightarrow> string list \<Rightarrow> metadata list option \<Rightarrow> string list \<Rightarrow> error + collection" where
  "collection_add c documents metadatas ids =
     (if length documents \<noteq> length ids
         \<or> (case metadatas of None \<Rightarrow> False | Some ms \<Rightarrow> length ms \<noteq> length ids)
      then Inl (LibraryError ''add: lengths differ'')
      else if \<not> distinct ids \<or> (\<exists>i \<in> set ids. i \<in> set (collection_ids c))
      then Inl (LibraryError ''add: duplicate id'')
      else Inr (c @ zip ids (zip documents
                  (case metadatas of None \<Rightarrow> replicate (length ids) None
                                   | Some ms \<Rightarrow> map Some ms))))"

definition update_record ::
  "string \<times> string option \<times> metadata option \<Rightarrow> doc_record \<Rightarrow> doc_record" where
  "update_record u r =
     (case u of (i, d, m) \<Rightarrow>
        (case r of (j, dj, mj) \<Rightarrow>
           if j = i
           then (j, (case d of None \<Rightarrow> dj | Some d' \<Rightarrow> d'),
                    (case m of None \<Rightarrow> mj | Some m' \<Rightarrow> Some m'))
           else r))"

definition optional_list :: "'a list option \<Rightarrow> nat \<Rightarrow> 'a option list" where
  "optional_list xs n = (case xs of None \<Rightarrow> replicate n None | Some ys \<Rightarrow> map Some ys)"

definition collection_update ::
  "collection \<Rightarrow> string list \<Rightarrow> string list option \<Rightarrow> metadata list option \<Rightarrow> collection" where
  "collection_update c ids documents metadatas =
     fold (\<lambda>u. map (update_record u))
       (zip ids (zip (optional_list documents (length ids))
                     (optional_list metadatas (length ids)))) c"

section \<open>\<^verbatim>\<open>chroma_add_documents\<close> and \<^verbatim>\<open>chroma_update_documents\<close>\<close>

text \<open>
  Both tools return a message; the model returns \<open>()\<close> for it. The \<^verbatim>\<open>try\<close> block of
  \<^verbatim>\<open>chroma_add_documents\<close> wraps what is raised inside it, the duplicate-id
  \<^verbatim>\<open>ValueError\<close> included, in \<open>AddFailed\<close>.
\<close>

definition chroma_add_documents ::
  "world \<Rightarrow> string \<Rightarrow> string list \<Rightarrow> string list \<Rightarrow> metadata list option
     \<Rightarrow> (error + unit) \<times> world" where
  "chroma_add_documents w collection_name documents ids metadatas =
     (if documents = [] then (Inl DocumentsEmpty, w)
      else if ids = [] then (Inl IdsEmpty, w)
      else if (\<exists>i \<in> set ids. py_strip i = []) then (Inl BlankId, w)
      else if length ids \<noteq> length documents
      then (Inl (LengthMismatch (length ids) (length documents)), w)
      else
        (case get_or_create_collection w collection_name of (collection, w1) \<Rightarrow>
           (let existing_ids = collection_ids collection;
                duplicate_ids = filter (\<lambda>i. i \<in> set existing_ids) ids
            in if duplicate_ids \<noteq> []
               then (Inl (AddFailed collection_name
                            (DuplicateIds collection_name duplicate_ids)), w1)
               else
                 (case collection_add collection documents metadatas ids of
                    Inl e \<Rightarrow> (Inl (AddFailed collection_name e), w1)
                  | Inr c' \<Rightarrow>
                      (Inr (), w1\<lparr>collections := (collections w1)(collection_name \<mapsto> c')\<rparr>)))))"

text \<open>
  \<^verbatim>\<open>chroma_update_documents\<close> without its \<^verbatim>\<open>embeddings\<close> argument, which the
  ingestion never passes. \<^verbatim>\<open>client.get_collection\<close> raises when the collection does
  not exist.
\<close>

definition chroma_update_documents ::
  "world \<Rightarrow> string \<Rightarrow> string list \<Rightarrow> metadata list option \<Rightarrow> string list option
     \<Rightarrow> (error + unit) \<times> world" where
  "chroma_update_documents w collection_name ids metadatas documents =
     (if ids = [] then (Inl UpdateIdsEmpty, w)
      else if metadatas = None \<and> documents = None then (Inl UpdateNothing, w)
      else if (case metadatas of None \<Rightarrow> False | Some ms \<Rightarrow> length ms \<noteq> length ids)
      then (Inl UpdateMetadatasLength, w)
      else if (case documents of None \<Rightarrow> False | Some ds \<Rightarrow> length ds \<noteq> length ids)
      then (Inl UpdateDocumentsLength, w)
      else
        (case collections w collection_name of
           None \<Rightarrow> (Inl (GetCollectionFailed collection_name), w)
         | Some collection \<Rightarrow>
             (Inr (), w\<lparr>collections := (collections w)(collection_name \<mapsto>
                           collection_update collection ids documents metadatas)\<rparr>)))"

section \<open>The file system and the libraries that read it\<close>

text \<open>
  What the ingestion reads from outside is an environment of answers, one field per
  library call: what a path is (\<^verbatim>\<open>is_file\<close>, \<^verbatim>\<open>is_dir\<close>, \<^verbatim>\<open>stat().st_size\<close>, and for a
  directory the paths below it, as \<^verbatim>\<open>rglob("*")\<close> and \<^verbatim>\<open>os.walk\<close> list them), the
  archive libraries, pandas, chardet and \<^verbatim>\<open>open\<close>. Where a library raises, the
  answer is the message, and the model raises \<open>LibraryError\<close> with it. The environment
  answers for the paths of extracted files too, as they are once the archive is
  extracted.
\<close>

datatype node = File nat | Dir nat "string list" | Missing

datatype archive_lib = ZipLib | TarLib | RarLib | SevenZipLib

record env =
  node_of :: "string \<Rightarrow> node"
  is_zipfile :: "string \<Rightarrow> bool"
  is_tarfile :: "string \<Rightarrow> bool"
  extractall :: "archive_lib \<Rightarrow> string \<Rightarrow> string \<Rightarrow> string + string list"
    \<comment> \<open>library, archive, destination: the member names, or what the library raises\<close>
  read_csv :: "string \<Rightarrow> string list \<times> string option"
    \<comment> \<open>per data row, its string columns joined by a space; and the error at which
        reading stopped, if any\<close>
  chardet :: "string \<Rightarrow> string + string option"
    \<comment> \<open>the encoding detected in the first 4096 bytes, or the failure to open\<close>
  open_text :: "string \<Rightarrow> string \<Rightarrow> string + string"
    \<comment> \<open>path, encoding: the decoded content\<close>

definition is_file :: "env \<Rightarrow> string \<Rightarrow> bool" where
  "is_file e p = (case node_of e p of File _ \<Rightarrow> True | _ \<Rightarrow> False)"

definition getsize :: "env \<Rightarrow> string \<Rightarrow> error + nat" where
  "getsize e p =
     (case node_of e p of
        File n \<Rightarrow> Inr n
      | Dir n _ \<Rightarrow> Inr n
      | Missing \<Rightarrow> Inl (LibraryError ''getsize: no such file''))"

section \<open>\<^verbatim>\<open>extract_archive\<close>\<close>

definition max_archive_size :: nat where
  "max_archive_size = 15 * 1024 * 1024"

text \<open>
  The four branches call \<^verbatim>\<open>extractall\<close> and then list the members; the last loop
  replaces each extracted directory by the files below it.
\<close>

definition flatten_extracted :: "env \<Rightarrow> string list \<Rightarrow> string list" where
  "flatten_extracted e extracted_files =
     concat (map (\<lambda>f. case node_of e f of
                          Dir _ below \<Rightarrow> filter (is_file e) below
                        | _ \<Rightarrow> [f]) extracted_files)"

definition library :: "string + 'a \<Rightarrow> error + 'a" where
  "library r = (case r of Inl msg \<Rightarrow> Inl (LibraryError msg) | Inr x \<Rightarrow> Inr x)"

definition extract_archive :: "env \<Rightarrow> string \<Rightarrow> string \<Rightarrow> error + string list" where
  "extract_archive e archive_path extract_dir =
     (case getsize e archive_path of
        Inl err \<Rightarrow> Inl err
      | Inr n \<Rightarrow>
          if n > max_archive_size then Inl (ArchiveTooLarge archive_path)
          else
            (case (if is_zipfile e archive_path
                   then library (extractall e ZipLib archive_path extract_dir)
                   else if is_tarfile e archive_path
                   then library (extractall e TarLib archive_path extract_dir)
                   else if endswith (py_lower archive_path) ''.rar''
                   then library (extractall e RarLib archive_path extract_dir)
                   else if endswith (py_lower archive_path) ''.7z''
                   then library (extractall e SevenZipLib archive_path extract_dir)
                   else Inl (UnsupportedArchiveType archive_path)) of
               Inl err \<Rightarrow> Inl err
             | Inr names \<Rightarrow>
                 Inr (flatten_extracted e (map (os_path_join extract_dir) names))))"

section \<open>\<^verbatim>\<open>chroma_add_documents_from_files\<close>\<close>

subsection \<open>Scratch directories\<close>

definition tmp_name :: "nat \<Rightarrow> string" where
  "tmp_name d = ''/tmp/tmp'' @ str_nat d"

definition TemporaryDirectory :: "world \<Rightarrow> nat \<times> world" where
  "TemporaryDirectory w =
     (tmp_next w, w\<lparr>tmp_live := tmp_live w @ [tmp_next w], tmp_next := Suc (tmp_next w)\<rparr>)"

text \<open>The \<^verbatim>\<open>finally\<close> block: \<^verbatim>\<open>for tmpdir in temp_dirs: tmpdir.cleanup()\<close>.\<close>

definition cleanup :: "nat list \<Rightarrow> world \<Rightarrow> world" where
  "cleanup temp_dirs w = fold (\<lambda>d w'. w'\<lparr>tmp_live := removeAll d (tmp_live w')\<rparr>) temp_dirs w"

subsection \<open>Expanding the paths\<close>

definition archive_suffixes :: "string list" where
  "archive_suffixes = [''.zip'', ''.tar'', ''.gz'', ''.tgz'', ''.rar'', ''.7z'']"

definition vectorizable_suffixes :: "string list" where
  "vectorizable_suffixes = [''.csv'', ''.txt'', ''.log'']"

text \<open>
  One turn of \<^verbatim>\<open>for path in file_or_dir_paths\<close>, on the loop's variables
  \<open>all_files\<close> and \<open>temp_dirs\<close> and the world.
\<close>

definition discover_path ::
  "env \<Rightarrow> string \<Rightarrow> string list \<times> nat list \<times> world \<Rightarrow> string list \<times> nat list \<times> world" where
  "discover_path e path s =
     (case s of (all_files, temp_dirs, w) \<Rightarrow>
        (case node_of e path of
           File n \<Rightarrow>
             if py_lower (path_suffix path) \<in> set archive_suffixes then
               (if n > 15 * 1024 * 1024 then (all_files, temp_dirs, w)
                else
                  (case TemporaryDirectory w of (tmpdir, w1) \<Rightarrow>
                     (case extract_archive e path (tmp_name tmpdir) of
                        Inr extracted \<Rightarrow> (all_files @ extracted, temp_dirs @ [tmpdir], w1)
                      | Inl err \<Rightarrow>
                          (all_files, temp_dirs @ [tmpdir],
                           w1\<lparr>printed := printed w1 @ [(path, err)]\<rparr>))))
             else (all_files @ [path], temp_dirs, w)
         | Dir _ below \<Rightarrow> (all_files @ filter (is_file e) below, temp_dirs, w)
         | Missing \<Rightarrow> (all_files, temp_dirs, w)))"

fun discover ::
  "env \<Rightarrow> string list \<Rightarrow> string list \<times> nat list \<times> world \<Rightarrow> string list \<times> nat list \<times> world" where
  "discover e [] s = s"
| "discover e (path # paths) s = discover e paths (discover_path e path s)"

subsection \<open>Reconciling one batch\<close>

text \<open>
  The body of the batch loop: read the ids of the collection, split the batch into
  new and existing records, add the new ones and update the others. The result is
  the number of records added.
\<close>

definition upsert_batch ::
  "world \<Rightarrow> string \<Rightarrow> string list \<Rightarrow> string list \<Rightarrow> metadata list \<Rightarrow> (error + nat) \<times> world" where
  "upsert_batch w collection_name batch_docs batch_ids batch_metadatas =
     (case get_or_create_collection w collection_name of (collection, w1) \<Rightarrow>
        (let existing_ids = collection_ids collection;
             rows = zip batch_docs (zip batch_ids batch_metadatas);
             new = filter (\<lambda>r. fst (snd r) \<notin> set existing_ids) rows;
             upd = filter (\<lambda>r. fst (snd r) \<in> set existing_ids) rows
         in
           (case (if new \<noteq> []
                  then chroma_add_documents w1 collection_name (map fst new)
                         (map (fst \<circ> snd) new) (Some (map (snd \<circ> snd) new))
                  else (Inr (), w1)) of
              (Inl err, w2) \<Rightarrow> (Inl err, w2)
            | (Inr _, w2) \<Rightarrow>
                (case (if upd \<noteq> []
                       then chroma_update_documents w2 collection_name
                              (map (fst \<circ> snd) upd) (Some (map (snd \<circ> snd) upd))
                              (Some (map fst upd))
                       else (Inr (), w2)) of
                   (Inl err, w3) \<Rightarrow> (Inl err, w3)
                 | (Inr _, w3) \<Rightarrow> (Inr (length new), w3)))))"

subsection \<open>The CSV path\<close>

definition CSV_CHUNK_ROWS :: nat where
  "CSV_CHUNK_ROWS = 1000"

definition BATCH_SIZE :: nat where
  "BATCH_SIZE = 5000"

definition row_id :: "string \<Rightarrow> nat \<Rightarrow> string" where
  "row_id file_path i = path_stem file_path @ ''_row_'' @ str_nat i"

definition row_metadata :: "string \<Rightarrow> nat \<Rightarrow> metadata" where
  "row_metadata file_path i = [(''file'', MStr file_path), (''row'', MInt i)]"

text \<open>
  \<^verbatim>\<open>[{"file": file_path, "row": i} for i in range(len(text_data))]\<close> and
  \<^verbatim>\<open>[f"{stem}_row_{i}" for i in range(len(text_data))]\<close>
\<close>

definition frame_metadatas :: "string \<Rightarrow> string list \<Rightarrow> metadata list" where
  "frame_metadatas file_path text_data = map (row_metadata file_path) [0..<length text_data]"

definition frame_ids :: "string \<Rightarrow> string list \<Rightarrow> string list" where
  "frame_ids file_path text_data = map (row_id file_path) [0..<length text_data]"

text \<open>\<^verbatim>\<open>range(0, n, step)\<close>, for \<open>step > 0\<close>.\<close>

definition range_step :: "nat \<Rightarrow> nat \<Rightarrow> nat list" where
  "range_step n step = map (\<lambda>k. k * step) [0..<(n + step - 1) div step]"

text \<open>\<^verbatim>\<open>for i in range(0, len(text_data), BATCH_SIZE)\<close>, with the running \<open>total_added\<close>.\<close>

fun upload_batches ::
  "world \<Rightarrow> string \<Rightarrow> string list \<Rightarrow> string list \<Rightarrow> metadata list \<Rightarrow> nat list \<Rightarrow> nat
     \<Rightarrow> (error + nat) \<times> world" where
  "upload_batches w collection_name text_data ids metadatas_csv [] total_added =
     (Inr total_added, w)"
| "upload_batches w collection_name text_data ids metadatas_csv (i # offsets) total_added =
     (case upsert_batch w collection_name
             (take BATCH_SIZE (drop i text_data))
             (take BATCH_SIZE (drop i ids))
             (take BATCH_SIZE (drop i metadatas_csv)) of
        (Inl err, w') \<Rightarrow> (Inl err, w')
      | (Inr added, w') \<Rightarrow>
          upload_batches w' collection_name text_data ids metadatas_csv offsets
            (total_added + added))"

text \<open>
  One frame of at most \<open>CSV_CHUNK_ROWS\<close> rows, as \<^verbatim>\<open>pd.read_csv(.., chunksize=..)\<close>
  yields it: \<open>text_data\<close> is the text of its rows, and the ids and metadata are
  numbered by \<^verbatim>\<open>range(len(text_data))\<close>.
\<close>

definition ingest_frame ::
  "world \<Rightarrow> string \<Rightarrow> string \<Rightarrow> string list \<Rightarrow> nat \<Rightarrow> (error + nat) \<times> world" where
  "ingest_frame w collection_name file_path text_data total_added =
     (if text_data = [] then (Inr total_added, w)
      else
        (let metadatas_csv = frame_metadatas file_path text_data;
             ids = frame_ids file_path text_data
         in upload_batches w collection_name text_data ids metadatas_csv
              (range_step (length text_data) BATCH_SIZE) total_added))"

fun ingest_frames ::
  "world \<Rightarrow> string \<Rightarrow> string \<Rightarrow> string list list \<Rightarrow> nat \<Rightarrow> (error + nat) \<times> world" where
  "ingest_frames w collection_name file_path [] total_added = (Inr total_added, w)"
| "ingest_frames w collection_name file_path (text_data # frames) total_added =
     (case ingest_frame w collection_name file_path text_data total_added of
        (Inl err, w') \<Rightarrow> (Inl err, w')
      | (Inr total', w') \<Rightarrow> ingest_frames w' collection_name file_path frames total')"

text \<open>
  The rows that pandas could read are cut into frames of \<open>CSV_CHUNK_ROWS\<close> rows; an
  error of the reader is raised after the frames read before it are ingested.
\<close>

definition ingest_csv_file ::
  "env \<Rightarrow> world \<Rightarrow> string \<Rightarrow> string \<Rightarrow> nat \<Rightarrow> (error + nat) \<times> world" where
  "ingest_csv_file e w collection_name file_path total_added =
     (case read_csv e file_path of (rows, failure) \<Rightarrow>
        (case ingest_frames w collection_name file_path (slices CSV_CHUNK_ROWS rows)
                total_added of
           (Inl err, w') \<Rightarrow> (Inl err, w')
         | (Inr total', w') \<Rightarrow>
             (case failure of
                None \<Rightarrow> (Inr total', w')
              | Some msg \<Rightarrow> (Inl (LibraryError msg), w'))))"

subsection \<open>The text and log path\<close>

text \<open>
  The lines of a text as \<^verbatim>\<open>f.readline()\<close> returns them one after the other, each with
  its newline, the last one possibly without; after the last line \<^verbatim>\<open>readline\<close>
  returns the empty string.
\<close>

fun split_lines :: "string \<Rightarrow> string \<Rightarrow> string list" where
  "split_lines cur [] = (if cur = [] then [] else [cur])"
| "split_lines cur (c # cs) =
     (if c = CHR 0x0A then (cur @ [c]) # split_lines [] cs else split_lines (cur @ [c]) cs)"

definition text_lines :: "string \<Rightarrow> string list" where
  "text_lines content = split_lines [] content"

definition chunk_id :: "string \<Rightarrow> nat \<Rightarrow> string" where
  "chunk_id file_path chunk_idx = path_stem file_path @ ''_chunk_'' @ str_nat chunk_idx"

definition chunk_metadata :: "string \<Rightarrow> nat \<Rightarrow> metadata" where
  "chunk_metadata file_path chunk_idx =
     [(''file'', MStr file_path), (''chunk_index'', MInt chunk_idx)]"

text \<open>
  The seven lines that both branches of the loop repeat: update the record when its
  id is in the set read before the file was opened, add it otherwise. The result is
  what is to be added to \<open>total_added\<close>.
\<close>

definition emit_chunk ::
  "world \<Rightarrow> string \<Rightarrow> string \<Rightarrow> string list \<Rightarrow> string \<Rightarrow> nat \<Rightarrow> (error + nat) \<times> world" where
  "emit_chunk w collection_name file_path existing_txt_ids buffer chunk_idx =
     (let ids = [chunk_id file_path chunk_idx];
          metadatas_txt = [chunk_metadata file_path chunk_idx]
      in if hd ids \<in> set existing_txt_ids
         then (case chroma_update_documents w collection_name ids (Some metadatas_txt)
                      (Some [buffer]) of
                 (Inl err, w') \<Rightarrow> (Inl err, w')
               | (Inr _, w') \<Rightarrow> (Inr 0, w'))
         else (case chroma_add_documents w collection_name [buffer] ids (Some metadatas_txt) of
                 (Inl err, w') \<Rightarrow> (Inl err, w')
               | (Inr _, w') \<Rightarrow> (Inr 1, w')))"

text \<open>\<^verbatim>\<open>buffer[-overlap:]\<close>\<close>

definition py_slice_from :: "'a list \<Rightarrow> int \<Rightarrow> 'a list" where
  "py_slice_from xs i = drop (py_index i (length xs)) xs"

text \<open>
  The \<^verbatim>\<open>while True\<close> loop over the lines still to be read, with \<open>buffer\<close>,
  \<open>chunk_idx\<close> and \<open>total_added\<close>.
\<close>

fun stream_text ::
  "world \<Rightarrow> string \<Rightarrow> string \<Rightarrow> string list \<Rightarrow> int \<Rightarrow> int \<Rightarrow> string list \<Rightarrow> string \<Rightarrow> nat \<Rightarrow> nat
     \<Rightarrow> (error + nat) \<times> world" where
  "stream_text w collection_name file_path existing chunk_size overlap [] buffer chunk_idx
     total_added =
     (if buffer \<noteq> [] then
        (case emit_chunk w collection_name file_path existing buffer chunk_idx of
           (Inl err, w') \<Rightarrow> (Inl err, w')
         | (Inr added, w') \<Rightarrow> (Inr (total_added + added), w'))
      else (Inr total_added, w))"
| "stream_text w collection_name file_path existing chunk_size overlap (line # lines) buffer
     chunk_idx total_added =
     (let buffer' = buffer @ line
      in if int (length buffer') \<ge> chunk_size then
           (case emit_chunk w collection_name file_path existing buffer' chunk_idx of
              (Inl err, w') \<Rightarrow> (Inl err, w')
            | (Inr added, w') \<Rightarrow>
                stream_text w' collection_name file_path existing chunk_size overlap lines
                  (if overlap > 0 then py_slice_from buffer' (- overlap) else [])
                  (chunk_idx + 1) (total_added + added))
         else stream_text w collection_name file_path existing chunk_size overlap lines
                buffer' chunk_idx total_added)"

definition ingest_text_file ::
  "env \<Rightarrow> world \<Rightarrow> string \<Rightarrow> string \<Rightarrow> int \<Rightarrow> int \<Rightarrow> string \<Rightarrow> nat \<Rightarrow> (error + nat) \<times> world" where
  "ingest_text_file e w collection_name file_path chunk_size overlap encoding total_added =
     (case library (chardet e file_path) of
        Inl err \<Rightarrow> (Inl err, w)
      | Inr detected \<Rightarrow>
          (let file_encoding = (case detected of Some enc \<Rightarrow> enc | None \<Rightarrow> encoding)
           in case get_or_create_collection w collection_name of (collection, w1) \<Rightarrow>
                (let existing_txt_ids = collection_ids collection
                 in case library (open_text e file_path file_encoding) of
                      Inl err \<Rightarrow> (Inl err, w1)
                    | Inr content \<Rightarrow>
                        stream_text w1 collection_name file_path existing_txt_ids chunk_size
                          overlap (text_lines content) [] 0 total_added)))"

subsection \<open>The tool\<close>

fun process_files ::
  "env \<Rightarrow> world \<Rightarrow> string \<Rightarrow> int \<Rightarrow> int \<Rightarrow> string \<Rightarrow> string list \<Rightarrow> nat \<Rightarrow> (error + nat) \<times> world" where
  "process_files e w collection_name chunk_size overlap encoding [] total_added =
     (Inr total_added, w)"
| "process_files e w collection_name chunk_size overlap encoding (file_path # files)
     total_added =
     (case (if py_lower (path_suffix file_path) = ''.csv''
            then ingest_csv_file e w collection_name file_path total_added
            else ingest_text_file e w collection_name file_path chunk_size overlap encoding
                   total_added) of
        (Inl err, w') \<Rightarrow> (Inl err, w')
      | (Inr total', w') \<Rightarrow>
          process_files e w' collection_name chunk_size overlap encoding files total')"

text \<open>
  The tool returns a message with \<open>total_added\<close>; the model returns the number. Its
  \<^verbatim>\<open>metadatas\<close> argument is never read and is left out. Whatever the \<^verbatim>\<open>try\<close> block
  does, the \<^verbatim>\<open>finally\<close> block runs on the world it leaves.
\<close>

definition chroma_add_documents_from_files ::
  "env \<Rightarrow> world \<Rightarrow> string \<Rightarrow> string list \<Rightarrow> int \<Rightarrow> int \<Rightarrow> string \<Rightarrow> (error + nat) \<times> world" where
  "chroma_add_documents_from_files e w collection_name file_or_dir_paths chunk_size overlap
     encoding =
     (case discover e file_or_dir_paths ([], [], w) of (all_files, temp_dirs, w1) \<Rightarrow>
        (let vectorizable =
               filter (\<lambda>f. py_lower (path_suffix f) \<in> set vectorizable_suffixes) all_files
         in case (if vectorizable = [] then (Inl NoVectorizableFiles, w1)
                  else process_files e w1 collection_name chunk_size overlap encoding
                         vectorizable 0) of
              (r, w2) \<Rightarrow> (r, cleanup temp_dirs w2)))"

section \<open>A small file system for the examples\<close>

text \<open>
  A ten-character text file, a CSV file with two rows, an archive of one byte more
  than the limit, a small zip archive with one text member, and a text file that
  cannot be opened.
\<close>

definition demo_env :: env where
  "demo_env =
     \<lparr> node_of = (\<lambda>p.
         if p = ''/data/a.txt'' then File 10
         else if p = ''/data/rows.csv'' then File 20
         else if p = ''/data/big.zip'' then File (15 * 1024 * 1024 + 1)
         else if p = ''/data/pack.zip'' then File 100
         else if p = ''/data/locked.txt'' then File 5
         else if p = ''/tmp/tmp0/b.txt'' then File 3
         else Missing),
       is_zipfile = (\<lambda>p. p = ''/data/pack.zip''),
       is_tarfile = (\<lambda>p. False),
       extractall = (\<lambda>lib a d.
         if a = ''/data/pack.zip'' then Inr [''b.txt'']
         else Inl ''not an archive''),
       read_csv = (\<lambda>p.
         if p = ''/data/rows.csv'' then ([''x y'', ''z w''], None)
         else ([], Some ''cannot parse'')),
       chardet = (\<lambda>p. Inr None),
       open_text = (\<lambda>p enc.
         if p = ''/data/a.txt'' then Inr ''abcdefghij''
         else if p = ''/tmp/tmp0/b.txt'' then Inr [CHR ''h'', CHR ''i'', CHR 0x0A]
         else Inl ''cannot open'') \<rparr>"

definition empty_world :: world where
  "empty_world = \<lparr> collections = Map.empty, tmp_live = [], tmp_next = 0, printed = [] \<rparr>"

text \<open>A world whose collection \<open>c\<close> holds one record.\<close>

definition one_record_world :: world where
  "one_record_world =
     \<lparr> collections = [''c'' \<mapsto> [(''a'', ''x'', None)]], tmp_live = [], tmp_next = 0, printed = [] \<rparr>"

section \<open>Notions for the statements\<close>

text \<open>The scratch directories of two worlds are the same.\<close>

definition same_tmp :: "world \<Rightarrow> world \<Rightarrow> bool" where
  "same_tmp w w' = (tmp_live w' = tmp_live w \<and> tmp_next w' = tmp_next w)"

section \<open>Properties of \<^verbatim>\<open>chunk_text\<close>\<close>

lemma py_slice_nat:
  "a \<le> length xs \<Longrightarrow> b \<le> length xs \<Longrightarrow> py_slice xs (int a) (int b) = take (b - a) (drop a xs)"
  by (simp add: py_slice_def py_index_def)

lemma chunk_loop_windows:
  "ov < sz \<Longrightarrow>
   chunk_loop text (int sz) (int ov) (int s) acc =
     Some (acc @ map (window_text text) (chunk_windows (length text) sz ov s))"
proof (induction "length text" sz ov s arbitrary: acc rule: chunk_windows.induct)
  case (1 sz ov s)
  show ?case
  proof (cases "s < length text")
    case False
    then show ?thesis
      by (subst chunk_loop.simps, subst chunk_windows.simps) simp
  next
    case True
    let ?e = "min (s + sz) (length text)"
    have sl: "py_slice text (int s) (int ?e) = window_text text (s, ?e)"
      using True by (simp add: py_slice_nat window_text_def)
    show ?thesis
    proof (cases "?e = length text")
      case e: True
      then show ?thesis using True 1(2) sl
        apply (subst chunk_loop.simps, subst chunk_windows.simps)
        apply (simp add: Let_def min_def split: if_splits)
        done
    next
      case e: False
      then have es: "?e = s + sz" "s + sz < length text" by (auto simp: min_def split: if_splits)
      have ie: "int (s + sz) - int ov = int (s + sz - ov)" using 1(2) by simp
      have IH: "chunk_loop text (int sz) (int ov) (int (s + sz - ov)) (acc @ [window_text text (s, s + sz)]) =
        Some ((acc @ [window_text text (s, s + sz)]) @ map (window_text text) (chunk_windows (length text) sz ov (s + sz - ov)))"
        using 1(1)[of ?e "acc @ [window_text text (s, s + sz)]"] True 1(2) e es by simp
      show ?thesis using True 1(2) sl es IH ie
        apply (subst chunk_loop.simps, subst chunk_windows.simps)
        apply (simp add: Let_def min_def split: if_splits)
        done
    qed
  qed
qed


lemma chunk_windows_nonempty:
  "s < len \<Longrightarrow> ov < sz \<Longrightarrow> chunk_windows len sz ov s \<noteq> []"
  by (subst chunk_windows.simps) (simp add: Let_def)

lemma chunk_windows_last:
  "s < len \<Longrightarrow> ov < sz \<Longrightarrow> snd (last (chunk_windows len sz ov s)) = len"
proof (induction len sz ov s rule: chunk_windows.induct)
  case (1 len sz ov s)
  show ?case
  proof (cases "min (s + sz) len = len")
    case True
    then show ?thesis using 1(2,3)
      by (subst chunk_windows.simps) (simp add: Let_def)
  next
    case False
    then have es: "min (s + sz) len = s + sz" "s + sz < len" by (auto simp: min_def split: if_splits)
    have lt: "s + sz - ov < len" using es by simp
    have IH: "snd (last (chunk_windows len sz ov (s + sz - ov))) = len"
      using 1(1)[of "min (s + sz) len"] 1(2,3) False es lt by simp
    have ne: "chunk_windows len sz ov (s + sz - ov) \<noteq> []"
      using lt 1(3) by (rule chunk_windows_nonempty)
    show ?thesis using 1(2,3) es IH ne
      by (subst chunk_windows.simps) (simp add: Let_def)
  qed
qed

lemma chunk_windows_bounds:
  "w \<in> set (chunk_windows len sz ov s) \<Longrightarrow> fst w < snd w \<and> snd w \<le> len \<and> snd w - fst w \<le> sz"
proof (induction len sz ov s rule: chunk_windows.induct)
  case (1 len sz ov s)
  from 1(2) show ?case
    apply (subst (asm) chunk_windows.simps)
    apply (auto simp: Let_def min_def split: if_splits dest: 1(1)[rotated -1])
    done
qed

lemma chunk_windows_butlast:
  "w \<in> set (butlast (chunk_windows len sz ov s)) \<Longrightarrow> snd w - fst w = sz \<and> snd w \<le> len"
proof (induction len sz ov s rule: chunk_windows.induct)
  case (1 len sz ov s)
  from 1(2) show ?case
    apply (subst (asm) chunk_windows.simps)
    apply (auto simp: Let_def min_def split: if_splits dest: 1(1)[rotated -1])
    done
qed

lemma chunk_windows_concat:
  "ov < sz \<Longrightarrow>
   concat (map (drop ov \<circ> window_text text) (chunk_windows (length text) sz ov s)) = drop (s + ov) text"
proof (induction "length text" sz ov s rule: chunk_windows.induct)
  case (1 sz ov s)
  show ?case
  proof (cases "s < length text")
    case False
    then show ?thesis by (subst chunk_windows.simps) simp
  next
    case True
    show ?thesis
    proof (cases "min (s + sz) (length text) = length text")
      case e: True
      then show ?thesis using True 1(2)
        by (subst chunk_windows.simps) (simp add: Let_def window_text_def drop_take add.commute)
    next
      case e: False
      then have es: "min (s + sz) (length text) = s + sz" "s + sz < length text"
        by (auto simp: min_def split: if_splits)
      have IH: "concat (map (drop ov \<circ> window_text text) (chunk_windows (length text) sz ov (s + sz - ov)))
                 = drop (s + sz - ov + ov) text"
        using 1(1)[of "min (s + sz) (length text)"] True 1(2) e es by simp
      have eq: "s + sz - ov + ov = s + sz" using 1(2) by simp
      have split: "take (sz - ov) (drop (s + ov) text) @ drop (s + sz) text = drop (s + ov) text"
      proof -
        have "drop (s + sz) text = drop (sz - ov) (drop (s + ov) text)"
          using 1(2) by (simp add: add.commute)
        then show ?thesis by (simp only: append_take_drop_id)
      qed
      show ?thesis using True 1(2) es IH eq split
        by (subst chunk_windows.simps) (simp add: Let_def window_text_def drop_take add.commute)
    qed
  qed
qed

lemma chunk_windows_reassemble:
  "ov < sz \<Longrightarrow>
   reassemble ov (map (window_text text) (chunk_windows (length text) sz ov 0)) = text"
proof (cases "0 < length text")
  case False
  then show ?thesis by (subst chunk_windows.simps) (simp add: reassemble_def)
next
  case True
  assume ov: "ov < sz"
  show ?thesis
  proof (cases "min sz (length text) = length text")
    case e: True
    then show ?thesis using True ov
      by (subst chunk_windows.simps) (simp add: Let_def reassemble_def window_text_def)
  next
    case e: False
    then have es: "min sz (length text) = sz" "sz < length text"
      by (auto simp: min_def split: if_splits)
    have "concat (map (drop ov \<circ> window_text text) (chunk_windows (length text) sz ov (sz - ov)))
            = drop (sz - ov + ov) text"
      using ov by (rule chunk_windows_concat)
    then have c: "concat (map (drop ov \<circ> window_text text) (chunk_windows (length text) sz ov (sz - ov)))
            = drop sz text" using ov by simp
    show ?thesis using True ov es c
      by (subst chunk_windows.simps) (simp add: Let_def reassemble_def window_text_def)
  qed
qed


lemma chunk_text_windows:
  assumes "0 < sz" "0 \<le> ov" "ov < sz"
  shows "chunk_text text sz ov =
    Some (Inr (map (window_text text) (chunk_windows (length text) (nat sz) (nat ov) 0)))"
proof -
  have "nat ov < nat sz" using assms by simp
  from chunk_loop_windows[OF this, of "text" 0 "[]"] assms
  show ?thesis by (simp add: chunk_text_def)
qed

lemma length_window_text:
  "snd w \<le> length text \<Longrightarrow> length (window_text text w) = snd w - fst w"
  by (simp add: window_text_def)

text \<open>
  Claim C8. For every text, every size \<open>> 0\<close> and every overlap with
  \<open>0 \<le> overlap < size\<close>, \<^verbatim>\<open>chunk_text\<close> returns, and every piece it returns is a
  non-empty string of at most \<open>size\<close> characters; every piece but the last has exactly
  \<open>size\<close> characters.
\<close>

theorem chunk_text_piece_lengths:
  assumes "0 < sz" "0 \<le> ov" "ov < sz"
  shows "\<exists>ps. chunk_text text sz ov = Some (Inr ps)
           \<and> (\<forall>p \<in> set ps. p \<noteq> [] \<and> int (length p) \<le> sz)
           \<and> (\<forall>p \<in> set (butlast ps). int (length p) = sz)"
proof -
  let ?ws = "chunk_windows (length text) (nat sz) (nat ov) 0"
  let ?ps = "map (window_text text) ?ws"
  have a: "\<forall>p \<in> set ?ps. p \<noteq> [] \<and> int (length p) \<le> sz"
  proof
    fix p assume "p \<in> set ?ps"
    then obtain w where w: "w \<in> set ?ws" "p = window_text text w" by auto
    from chunk_windows_bounds[OF w(1)] have b: "fst w < snd w" "snd w \<le> length text" "snd w - fst w \<le> nat sz"
      by simp_all
    have "length p = snd w - fst w" using w(2) b(2) by (simp add: length_window_text)
    then show "p \<noteq> [] \<and> int (length p) \<le> sz" using b assms by auto
  qed
  have b: "\<forall>p \<in> set (butlast ?ps). int (length p) = sz"
  proof
    fix p assume "p \<in> set (butlast ?ps)"
    then have "p \<in> set (map (window_text text) (butlast ?ws))" by (simp add: map_butlast)
    then obtain w where w: "w \<in> set (butlast ?ws)" "p = window_text text w" by auto
    from chunk_windows_butlast[OF w(1)] have c: "snd w - fst w = nat sz" "snd w \<le> length text"
      by simp_all
    have "length p = snd w - fst w" using w(2) c(2) by (simp add: length_window_text)
    then show "int (length p) = sz" using c assms by simp
  qed
  show ?thesis using chunk_text_windows[OF assms, of "text"] a b by blast
qed

theorem chunk_text_piece_lengths_witness:
  "\<exists>ps. chunk_text ''abcdefghij'' 4 1 = Some (Inr ps)
           \<and> (\<forall>p \<in> set ps. p \<noteq> [] \<and> int (length p) \<le> 4)
           \<and> (\<forall>p \<in> set (butlast ps). int (length p) = 4)"
  using chunk_text_piece_lengths[of 4 1 "''abcdefghij''"] by simp

text \<open>
  Claim C1, amended. For every text, every size \<open>> 0\<close> and every overlap with
  \<open>0 \<le> overlap < size\<close>, \<^verbatim>\<open>chunk_text\<close> returns an ordered sequence of pieces
  such that the first piece followed by every later piece without its leading
  \<open>overlap\<close> characters is the text again; the pieces are the text of the windows
  the cursor visits; and when the text is not empty the sequence is not empty and
  the last window ends at the length of the text. For the empty text the sequence
  is empty, which is where the claim as written fails.
\<close>

theorem chunk_text_reassembles:
  assumes "0 < sz" "0 \<le> ov" "ov < sz"
  shows "\<exists>ps. chunk_text text sz ov = Some (Inr ps)
           \<and> reassemble (nat ov) ps = text
           \<and> ps = map (window_text text) (chunk_windows (length text) (nat sz) (nat ov) 0)
           \<and> (text \<noteq> [] \<longrightarrow>
                ps \<noteq> [] \<and> snd (last (chunk_windows (length text) (nat sz) (nat ov) 0)) = length text)"
proof -
  have lt: "nat ov < nat sz" using assms by simp
  have r: "reassemble (nat ov) (map (window_text text) (chunk_windows (length text) (nat sz) (nat ov) 0)) = text"
    using lt by (rule chunk_windows_reassemble)
  have l: "text \<noteq> [] \<longrightarrow> chunk_windows (length text) (nat sz) (nat ov) 0 \<noteq> []
      \<and> snd (last (chunk_windows (length text) (nat sz) (nat ov) 0)) = length text"
    using lt chunk_windows_nonempty[of 0 "length text" "nat ov" "nat sz"]
      chunk_windows_last[of 0 "length text" "nat ov" "nat sz"] by simp
  show ?thesis using chunk_text_windows[OF assms, of "text"] r l by simp
qed

theorem chunk_text_reassembles_witness:
  "\<exists>ps. chunk_text ''abcdefghij'' 4 1 = Some (Inr ps) \<and> ps \<noteq> []
        \<and> reassemble 1 ps = ''abcdefghij''
        \<and> snd (last (chunk_windows (length ''abcdefghij'') (nat 4) (nat 1) 0)) = length ''abcdefghij''"
  using chunk_text_reassembles[of 4 1 "''abcdefghij''"] by simp

theorem chunk_text_empty_counterexample:
  "\<not> (\<exists>ps. chunk_text [] 4 1 = Some (Inr ps) \<and> ps \<noteq> [])"
  by (simp add: chunk_text_def chunk_loop.simps)

text \<open>The worked examples of the specification.\<close>

lemma chunk_text_example_overlap:
  "chunk_text ''abcdefghij'' 4 1 = Some (Inr [''abcd'', ''defg'', ''ghij''])"
  by (simp add: chunk_text_def chunk_loop.simps py_slice_def py_index_def Let_def)

lemma chunk_text_example_no_overlap:
  "chunk_text ''abcdefghij'' 4 0 = Some (Inr [''abcd'', ''efgh'', ''ij''])"
  by (simp add: chunk_text_def chunk_loop.simps py_slice_def py_index_def Let_def)

section \<open>Validation in \<^verbatim>\<open>chroma_add_documents\<close>\<close>

lemma py_strip_empty_iff: "py_strip s = [] \<longleftrightarrow> (\<forall>c \<in> set s. py_isspace c)"
proof -
  have "py_strip s = [] \<longleftrightarrow> dropWhile py_isspace (rev (dropWhile py_isspace s)) = []"
    by (simp add: py_strip_def)
  also have "\<dots> \<longleftrightarrow> (\<forall>c \<in> set (dropWhile py_isspace s). py_isspace c)"
    by (simp add: dropWhile_eq_Nil_conv)
  also have "\<dots> \<longleftrightarrow> (\<forall>c \<in> set s. py_isspace c)"
  proof
    assume a: "\<forall>c \<in> set (dropWhile py_isspace s). py_isspace c"
    show "\<forall>c \<in> set s. py_isspace c"
    proof (cases "dropWhile py_isspace s")
      case Nil
      then show ?thesis by (simp add: dropWhile_eq_Nil_conv)
    next
      case (Cons x xs)
      then have "\<not> py_isspace x" using hd_dropWhile[of py_isspace s] by simp
      moreover have "x \<in> set (dropWhile py_isspace s)" using Cons by simp
      ultimately show ?thesis using a by blast
    qed
  next
    assume "\<forall>c \<in> set s. py_isspace c"
    then show "\<forall>c \<in> set (dropWhile py_isspace s). py_isspace c"
      using set_dropWhileD by fastforce
  qed
  finally show ?thesis .
qed

lemma get_or_create_existing:
  "collections w name = Some c \<Longrightarrow> get_or_create_collection w name = (c, w)"
  by (simp add: get_or_create_collection_def)

text \<open>
  Claim C9. When the documents list is empty, the ids list is empty, some id is empty
  or consists of whitespace only, the two lists differ in length, or some id is
  already in the collection, \<^verbatim>\<open>chroma_add_documents\<close> raises and leaves the world as
  it was: the store's \<^verbatim>\<open>add\<close> is not reached.
\<close>

theorem chroma_add_documents_rejects:
  assumes "documents = [] \<or> ids = [] \<or> (\<exists>i \<in> set ids. \<forall>c \<in> set i. py_isspace c)
           \<or> length ids \<noteq> length documents
           \<or> (\<exists>i \<in> set ids. \<exists>c. collections w name = Some c \<and> i \<in> set (collection_ids c))"
  shows "\<exists>err. chroma_add_documents w name documents ids metadatas = (Inl err, w)"
proof -
  consider (a) "documents = []"
    | (b) "documents \<noteq> []" "ids = []"
    | (c) "documents \<noteq> []" "ids \<noteq> []" "\<exists>i \<in> set ids. py_strip i = []"
    | (d) "documents \<noteq> []" "ids \<noteq> []" "\<not> (\<exists>i \<in> set ids. py_strip i = [])"
          "length ids \<noteq> length documents"
    | (e) "documents \<noteq> []" "ids \<noteq> []" "\<not> (\<exists>i \<in> set ids. py_strip i = [])"
          "length ids = length documents"
          "\<exists>i \<in> set ids. \<exists>c. collections w name = Some c \<and> i \<in> set (collection_ids c)"
    using assms unfolding py_strip_empty_iff by blast
  then show ?thesis
  proof cases
    case a then show ?thesis by (simp add: chroma_add_documents_def)
  next
    case b then show ?thesis by (simp add: chroma_add_documents_def)
  next
    case c then show ?thesis by (simp add: chroma_add_documents_def)
  next
    case d then show ?thesis by (simp add: chroma_add_documents_def)
  next
    case e
    then obtain i c where ic: "i \<in> set ids" "collections w name = Some c" "i \<in> set (collection_ids c)"
      by blast
    then have f: "filter (\<lambda>i. i \<in> set (collection_ids c)) ids \<noteq> []"
      by (auto simp: filter_empty_conv)
    show ?thesis using e(1-4) ic(2) f
      by (simp add: chroma_add_documents_def get_or_create_existing Let_def)
  qed
qed

theorem chroma_add_documents_rejects_witness:
  "(\<exists>err. chroma_add_documents one_record_world ''c'' [''y''] [''a''] None = (Inl err, one_record_world))
   \<and> (\<exists>err. chroma_add_documents one_record_world ''c'' [''y''] ['' ''] None = (Inl err, one_record_world))"
proof
  have "\<exists>i \<in> set [''a'']. \<exists>c. collections one_record_world ''c'' = Some c \<and> i \<in> set (collection_ids c)"
    by (simp add: one_record_world_def collection_ids_def)
  then show "\<exists>err. chroma_add_documents one_record_world ''c'' [''y''] [''a''] None = (Inl err, one_record_world)"
    using chroma_add_documents_rejects[of "[''y'']" "[''a'']" one_record_world "''c''" None] by blast
next
  have "\<exists>i \<in> set ['' '']. \<forall>c \<in> set i. py_isspace c"
    by (simp add: py_isspace_def)
  then show "\<exists>err. chroma_add_documents one_record_world ''c'' [''y''] ['' ''] None = (Inl err, one_record_world)"
    using chroma_add_documents_rejects[of "[''y'']" "['' '']" one_record_world "''c''" None] by blast
qed

section \<open>The size limit of \<^verbatim>\<open>extract_archive\<close>\<close>

text \<open>
  Claim C6. \<^verbatim>\<open>extract_archive\<close> raises its too-large error exactly when the size of
  the archive exceeds \<open>15 * 1024 * 1024\<close> bytes: an archive of exactly that size is
  not rejected for its size, and one of one byte more is.
\<close>

theorem extract_archive_too_large_iff:
  "(extract_archive e archive_path extract_dir = Inl (ArchiveTooLarge archive_path)
      \<longleftrightarrow> (\<exists>n. getsize e archive_path = Inr n \<and> n > 15 * 1024 * 1024))
   \<and> (getsize e archive_path = Inr (15 * 1024 * 1024)
        \<longrightarrow> extract_archive e archive_path extract_dir \<noteq> Inl (ArchiveTooLarge archive_path))
   \<and> (getsize e archive_path = Inr (15 * 1024 * 1024 + 1)
        \<longrightarrow> extract_archive e archive_path extract_dir = Inl (ArchiveTooLarge archive_path))"
  by (auto simp: extract_archive_def max_archive_size_def getsize_def library_def
           split: sum.splits node.splits if_splits)

theorem extract_archive_too_large_iff_witness:
  "extract_archive demo_env ''/data/big.zip'' ''/tmp/tmp0'' = Inl (ArchiveTooLarge ''/data/big.zip'')
   \<and> extract_archive demo_env ''/data/pack.zip'' ''/tmp/tmp0'' \<noteq> Inl (ArchiveTooLarge ''/data/pack.zip'')"
proof -
  have a: "getsize demo_env ''/data/big.zip'' = Inr (15 * 1024 * 1024 + 1)"
    by (simp add: getsize_def demo_env_def)
  have b: "\<not> (\<exists>n. getsize demo_env ''/data/pack.zip'' = Inr n \<and> n > 15 * 1024 * 1024)"
    by (simp add: getsize_def demo_env_def)
  show ?thesis
    using a b extract_archive_too_large_iff[of demo_env "''/data/big.zip''" "''/tmp/tmp0''"]
      extract_archive_too_large_iff[of demo_env "''/data/pack.zip''" "''/tmp/tmp0''"]
    by blast
qed

section \<open>Archives over the limit\<close>

lemma discover_append:
  "discover e (ps @ qs) s = discover e qs (discover e ps s)"
  by (induction ps arbitrary: s) simp_all

text \<open>
  Claim C10. An input that is a file with an archive suffix and more than
  \<open>15 * 1024 * 1024\<close> bytes is passed over: its turn of the loop leaves the candidate
  files, the scratch directories and the world as they are, so that nothing is
  created or printed for it, and the whole call does what it does without this input.
\<close>

theorem oversize_archive_skipped:
  assumes "node_of e path = File n"
      and "py_lower (path_suffix path) \<in> set archive_suffixes"
      and "n > 15 * 1024 * 1024"
  shows "discover_path e path (all_files, temp_dirs, w) = (all_files, temp_dirs, w)
       \<and> chroma_add_documents_from_files e w name (ps @ path # qs) chunk_size overlap encoding
          = chroma_add_documents_from_files e w name (ps @ qs) chunk_size overlap encoding"
proof -
  have step: "\<And>s. discover_path e path s = s"
    using assms by (auto simp: discover_path_def split: prod.splits)
  have "discover e (ps @ path # qs) ([], [], w) = discover e (ps @ qs) ([], [], w)"
    by (simp add: discover_append step)
  then show ?thesis using step
    by (simp add: chroma_add_documents_from_files_def)
qed

theorem oversize_archive_skipped_witness:
  "discover_path demo_env ''/data/big.zip'' ([], [], empty_world) = ([], [], empty_world)
   \<and> chroma_add_documents_from_files demo_env empty_world ''c''
        ([''/data/a.txt''] @ ''/data/big.zip'' # [''/data/rows.csv'']) 2000 200 ''utf-8''
      = chroma_add_documents_from_files demo_env empty_world ''c''
        ([''/data/a.txt''] @ [''/data/rows.csv'']) 2000 200 ''utf-8''"
proof -
  have a: "node_of demo_env ''/data/big.zip'' = File (15 * 1024 * 1024 + 1)"
    by (simp add: demo_env_def)
  have b: "py_lower (path_suffix ''/data/big.zip'') \<in> set archive_suffixes"
    by code_simp
  have c: "(15 * 1024 * 1024 + 1 :: nat) > 15 * 1024 * 1024" by simp
  show ?thesis
    using oversize_archive_skipped[OF a b c, of "[]" "[]" empty_world "''c''" "[''/data/a.txt'']"
        "[''/data/rows.csv'']" 2000 200 "''utf-8''"]
    by simp
qed

section \<open>Scratch directories\<close>

text \<open>Nothing after the path expansion creates or removes a scratch directory.\<close>

lemma same_tmp_refl [simp]: "same_tmp w w"
  by (simp add: same_tmp_def)

lemma same_tmp_trans: "same_tmp a b \<Longrightarrow> same_tmp b c \<Longrightarrow> same_tmp a c"
  by (simp add: same_tmp_def)

lemma get_or_create_tmp:
  "get_or_create_collection w name = (c, w') \<Longrightarrow> same_tmp w w'"
  by (auto simp: get_or_create_collection_def same_tmp_def split: option.splits)

lemma add_tmp:
  "chroma_add_documents w name docs ids metas = (r, w') \<Longrightarrow> same_tmp w w'"
  by (auto simp: chroma_add_documents_def get_or_create_collection_def same_tmp_def Let_def
           split: option.splits sum.splits if_splits)

lemma update_tmp:
  "chroma_update_documents w name ids metas docs = (r, w') \<Longrightarrow> same_tmp w w'"
  by (auto simp: chroma_update_documents_def same_tmp_def split: option.splits if_splits)

lemma emit_chunk_tmp:
  "emit_chunk w name fp ex buf idx = (r, w') \<Longrightarrow> same_tmp w w'"
  by (auto simp: emit_chunk_def Let_def split: if_splits prod.splits sum.splits
           dest: add_tmp update_tmp)


lemma stream_text_tmp:
  "stream_text w name fp ex cs ov lines buf idx tot = (r, w') \<Longrightarrow> same_tmp w w'"
proof (induction lines arbitrary: w buf idx tot)
  case Nil
  then show ?case
    by (auto split: if_splits prod.splits sum.splits dest: emit_chunk_tmp)
next
  case (Cons line lines)
  show ?case
  proof (cases "cs \<le> int (length (buf @ line))")
    case False
    then show ?thesis using Cons.prems Cons.IH[of w "buf @ line" idx tot]
      by (simp add: Let_def)
  next
    case True
    obtain r1 w1 where e: "emit_chunk w name fp ex (buf @ line) idx = (r1, w1)"
      by (cases "emit_chunk w name fp ex (buf @ line) idx")
    have t: "same_tmp w w1" using e by (rule emit_chunk_tmp)
    show ?thesis
    proof (cases r1)
      case (Inl err)
      then show ?thesis using True e t Cons.prems by (simp add: Let_def)
    next
      case (Inr a)
      then have "stream_text w1 name fp ex cs ov lines
          (if ov > 0 then py_slice_from (buf @ line) (- ov) else []) (idx + 1) (tot + a) = (r, w')"
        using True e Cons.prems by (simp add: Let_def)
      then have "same_tmp w1 w'" by (rule Cons.IH)
      with t show ?thesis by (rule same_tmp_trans)
    qed
  qed
qed


lemma upsert_batch_tmp:
  assumes "upsert_batch w name docs ids metas = (r, w')"
  shows "same_tmp w w'"
proof -
  obtain c w1 where g: "get_or_create_collection w name = (c, w1)"
    by (cases "get_or_create_collection w name")
  have t1: "same_tmp w w1" using g by (rule get_or_create_tmp)
  let ?rows = "zip docs (zip ids metas)"
  let ?new = "filter (\<lambda>r. fst (snd r) \<notin> set (collection_ids c)) ?rows"
  let ?upd = "filter (\<lambda>r. fst (snd r) \<in> set (collection_ids c)) ?rows"
  obtain r2 w2 where a: "(if ?new \<noteq> []
        then chroma_add_documents w1 name (map fst ?new) (map (fst \<circ> snd) ?new)
               (Some (map (snd \<circ> snd) ?new))
        else (Inr (), w1)) = (r2, w2)"
    by (cases "(if ?new \<noteq> []
        then chroma_add_documents w1 name (map fst ?new) (map (fst \<circ> snd) ?new)
               (Some (map (snd \<circ> snd) ?new))
        else (Inr (), w1))")
  have t2: "same_tmp w1 w2" using a by (auto split: if_splits dest: add_tmp)
  obtain r3 w3 where u: "(if ?upd \<noteq> []
        then chroma_update_documents w2 name (map (fst \<circ> snd) ?upd)
               (Some (map (snd \<circ> snd) ?upd)) (Some (map fst ?upd))
        else (Inr (), w2)) = (r3, w3)"
    by (cases "(if ?upd \<noteq> []
        then chroma_update_documents w2 name (map (fst \<circ> snd) ?upd)
               (Some (map (snd \<circ> snd) ?upd)) (Some (map fst ?upd))
        else (Inr (), w2))")
  have t3: "same_tmp w2 w3" using u by (auto split: if_splits dest: update_tmp)
  have "w' = w2 \<or> w' = w3"
    using assms unfolding upsert_batch_def g
    by (simp add: Let_def a u split: sum.splits)
  then show ?thesis using t1 t2 t3 same_tmp_trans by blast
qed

lemma upload_batches_tmp:
  "upload_batches w name docs ids metas offs tot = (r, w') \<Longrightarrow> same_tmp w w'"
proof (induction offs arbitrary: w tot)
  case Nil
  then show ?case by simp
next
  case (Cons i offs)
  obtain r1 w1 where b: "upsert_batch w name (take BATCH_SIZE (drop i docs))
      (take BATCH_SIZE (drop i ids)) (take BATCH_SIZE (drop i metas)) = (r1, w1)"
    by (cases "upsert_batch w name (take BATCH_SIZE (drop i docs))
      (take BATCH_SIZE (drop i ids)) (take BATCH_SIZE (drop i metas))")
  have t: "same_tmp w w1" using b by (rule upsert_batch_tmp)
  show ?case
  proof (cases r1)
    case (Inl err)
    then show ?thesis using b t Cons.prems by simp
  next
    case (Inr a)
    then have "upload_batches w1 name docs ids metas offs (tot + a) = (r, w')"
      using b Cons.prems by simp
    then have "same_tmp w1 w'" by (rule Cons.IH)
    with t show ?thesis by (rule same_tmp_trans)
  qed
qed

lemma ingest_frame_tmp:
  "ingest_frame w name fp text_data tot = (r, w') \<Longrightarrow> same_tmp w w'"
  by (auto simp: ingest_frame_def Let_def split: if_splits dest: upload_batches_tmp)

lemma ingest_frames_tmp:
  "ingest_frames w name fp frames tot = (r, w') \<Longrightarrow> same_tmp w w'"
proof (induction frames arbitrary: w tot)
  case Nil
  then show ?case by simp
next
  case (Cons f frames)
  obtain r1 w1 where b: "ingest_frame w name fp f tot = (r1, w1)"
    by (cases "ingest_frame w name fp f tot")
  have t: "same_tmp w w1" using b by (rule ingest_frame_tmp)
  show ?case
  proof (cases r1)
    case (Inl err)
    then show ?thesis using b t Cons.prems by simp
  next
    case (Inr a)
    then have "ingest_frames w1 name fp frames a = (r, w')"
      using b Cons.prems by simp
    then have "same_tmp w1 w'" by (rule Cons.IH)
    with t show ?thesis by (rule same_tmp_trans)
  qed
qed

lemma ingest_csv_file_tmp:
  "ingest_csv_file e w name fp tot = (r, w') \<Longrightarrow> same_tmp w w'"
  by (auto simp: ingest_csv_file_def split: prod.splits sum.splits option.splits
           dest: ingest_frames_tmp)

lemma ingest_text_file_tmp:
  assumes "ingest_text_file e w name fp cs ov enc tot = (r, w')"
  shows "same_tmp w w'"
proof -
  obtain c w1 where g: "get_or_create_collection w name = (c, w1)"
    by (cases "get_or_create_collection w name")
  have t1: "same_tmp w w1" using g by (rule get_or_create_tmp)
  have "w' = w \<or> w' = w1 \<or> (\<exists>lines. stream_text w1 name fp (collection_ids c) cs ov lines [] 0 tot = (r, w'))"
    using assms unfolding ingest_text_file_def g
    by (auto simp: Let_def split: sum.splits)
  then show ?thesis using t1 stream_text_tmp same_tmp_trans same_tmp_refl by blast
qed

lemma process_files_tmp:
  "process_files e w name cs ov enc files tot = (r, w') \<Longrightarrow> same_tmp w w'"
proof (induction files arbitrary: w tot)
  case Nil
  then show ?case by simp
next
  case (Cons f files)
  let ?step = "if py_lower (path_suffix f) = ''.csv''
            then ingest_csv_file e w name f tot
            else ingest_text_file e w name f cs ov enc tot"
  obtain r1 w1 where b: "?step = (r1, w1)" by (cases ?step)
  have t: "same_tmp w w1" using b
    by (auto split: if_splits dest: ingest_csv_file_tmp ingest_text_file_tmp)
  show ?case
  proof (cases r1)
    case (Inl err)
    then show ?thesis using b t Cons.prems by simp
  next
    case (Inr a)
    then have "process_files e w1 name cs ov enc files a = (r, w')"
      using b Cons.prems by simp
    then have "same_tmp w1 w'" by (rule Cons.IH)
    with t show ?thesis by (rule same_tmp_trans)
  qed
qed

lemma discover_path_dirs:
  assumes "discover_path e p (fs, ds, w) = (fs', ds', w')"
  shows "ds' = ds @ [tmp_next w ..< tmp_next w']
       \<and> tmp_live w' = tmp_live w @ [tmp_next w ..< tmp_next w']
       \<and> tmp_next w \<le> tmp_next w'
       \<and> collections w' = collections w"
  using assms
  by (auto simp: discover_path_def TemporaryDirectory_def
           split: node.splits if_splits sum.splits)

lemma discover_dirs:
  "discover e ps (fs, ds, w) = (fs', ds', w') \<Longrightarrow>
     ds' = ds @ [tmp_next w ..< tmp_next w']
   \<and> tmp_live w' = tmp_live w @ [tmp_next w ..< tmp_next w']
   \<and> tmp_next w \<le> tmp_next w'
   \<and> collections w' = collections w"
proof (induction ps arbitrary: fs ds w)
  case Nil
  then show ?case by simp
next
  case (Cons p ps)
  obtain fs1 ds1 w1 where s: "discover_path e p (fs, ds, w) = (fs1, ds1, w1)"
    by (cases "discover_path e p (fs, ds, w)")
  note a = discover_path_dirs[OF s]
  have "discover e ps (fs1, ds1, w1) = (fs', ds', w')" using Cons.prems s by simp
  note b = Cons.IH[OF this]
  have u: "[tmp_next w ..< tmp_next w1] @ [tmp_next w1 ..< tmp_next w'] = [tmp_next w ..< tmp_next w']"
    using a b by (metis le_Suc_ex upt_add_eq_append)
  show ?case using a b u by (metis append.assoc le_trans)
qed

lemma cleanup_live: "tmp_live (cleanup ds w) = filter (\<lambda>d. d \<notin> set ds) (tmp_live w)"
proof (induction ds arbitrary: w)
  case Nil
  then show ?case by (simp add: cleanup_def)
next
  case (Cons d ds)
  have "cleanup (d # ds) w = cleanup ds (w\<lparr>tmp_live := removeAll d (tmp_live w)\<rparr>)"
    by (simp add: cleanup_def)
  then show ?case using Cons[of "w\<lparr>tmp_live := removeAll d (tmp_live w)\<rparr>"]
    by (auto simp: removeAll_filter_not_eq intro: filter_cong)
qed

lemma cleanup_other:
  "tmp_next (cleanup ds w) = tmp_next w \<and> collections (cleanup ds w) = collections w
    \<and> printed (cleanup ds w) = printed w"
  by (induction ds arbitrary: w) (simp_all add: cleanup_def)

text \<open>The definitions of the model, for evaluating it on the examples.\<close>

lemmas model_defs =
  chroma_add_documents_from_files_def discover_path_def TemporaryDirectory_def cleanup_def
  extract_archive_def getsize_def max_archive_size_def library_def flatten_extracted_def
  os_path_join_def is_file_def archive_suffixes_def vectorizable_suffixes_def
  ingest_text_file_def ingest_csv_file_def ingest_frame_def upsert_batch_def emit_chunk_def
  chroma_add_documents_def chroma_update_documents_def get_or_create_collection_def
  collection_ids_def collection_add_def collection_update_def update_record_def optional_list_def
  chunk_id_def chunk_metadata_def row_id_def row_metadata_def frame_ids_def frame_metadatas_def text_lines_def py_slice_from_def
  py_index_def range_step_def CSV_CHUNK_ROWS_def BATCH_SIZE_def tmp_name_def
  path_suffix_def path_stem_def path_name_def has_suffix_def after_last_dot_def py_lower_def
  lower_char_def py_strip_def py_isspace_def endswith_def Let_def

lemma str_nat_0: "str_nat 0 = ''0''" by code_simp
lemma str_nat_1: "str_nat (Suc 0) = ''1''" by code_simp

text \<open>
  A run that creates a scratch directory, ingests the extracted file and then fails
  on a file that cannot be opened.
\<close>

lemma run_pack:
  "chroma_add_documents_from_files demo_env empty_world ''c''
          [''/data/pack.zip'', ''/data/locked.txt''] 2000 200 ''utf-8''
   = (Inl (LibraryError ''cannot open''),
      \<lparr> collections = [''c'' \<mapsto> [(''b_chunk_0'', [CHR ''h'', CHR ''i'', CHR 0x0A],
             Some [(''file'', MStr ''/tmp/tmp0/b.txt''), (''chunk_index'', MInt 0)])]],
        tmp_live = [], tmp_next = 1, printed = [] \<rparr>)"
  by (simp add: model_defs demo_env_def empty_world_def str_nat_0 str_nat_1)

text \<open>
  Claim C7. Whatever way the call ends, the scratch directories it created, which are
  those in \<open>temp_dirs\<close> and exist after the path expansion, are not among the
  existing ones when it returns. The function is total, and its result covers the
  normal return, the error for no vectorizable file and every error raised while
  the files are processed.
\<close>

theorem scratch_dirs_released:
  "\<exists>all_files temp_dirs w1.
      discover e paths ([], [], w) = (all_files, temp_dirs, w1)
    \<and> temp_dirs = [tmp_next w ..< tmp_next w1]
    \<and> set temp_dirs \<subseteq> set (tmp_live w1)
    \<and> set (tmp_live (snd (chroma_add_documents_from_files e w name paths chunk_size overlap encoding)))
         \<inter> set temp_dirs = {}
    \<and> tmp_live (snd (chroma_add_documents_from_files e w name paths chunk_size overlap encoding))
         = filter (\<lambda>d. d \<notin> set temp_dirs) (tmp_live w)"
proof -
  obtain fs ds w1 where d: "discover e paths ([], [], w) = (fs, ds, w1)"
    by (cases "discover e paths ([], [], w)")
  note dd = discover_dirs[OF d]
  let ?v = "filter (\<lambda>f. py_lower (path_suffix f) \<in> set vectorizable_suffixes) fs"
  let ?run = "if ?v = [] then (Inl NoVectorizableFiles, w1)
              else process_files e w1 name chunk_size overlap encoding ?v 0"
  obtain r w2 where p: "?run = (r, w2)" by (cases ?run)
  have t: "same_tmp w1 w2" using p
    by (auto split: if_splits dest: process_files_tmp)
  have res: "chroma_add_documents_from_files e w name paths chunk_size overlap encoding
               = (r, cleanup ds w2)"
    using d p by (simp add: chroma_add_documents_from_files_def Let_def)
  have live: "tmp_live (cleanup ds w2) = filter (\<lambda>d. d \<notin> set ds) (tmp_live w @ ds)"
    using t dd by (simp add: cleanup_live same_tmp_def)
  have a: "ds = [tmp_next w ..< tmp_next w1]" using dd by simp
  have b: "set ds \<subseteq> set (tmp_live w1)" using dd by auto
  have c: "set (tmp_live (cleanup ds w2)) \<inter> set ds = {}" using live by auto
  have f: "tmp_live (cleanup ds w2) = filter (\<lambda>d. d \<notin> set ds) (tmp_live w)"
    using live by simp
  have "discover e paths ([], [], w) = (fs, ds, w1)
      \<and> ds = [tmp_next w ..< tmp_next w1]
      \<and> set ds \<subseteq> set (tmp_live w1)
      \<and> set (tmp_live (snd (chroma_add_documents_from_files e w name paths chunk_size overlap encoding)))
           \<inter> set ds = {}
      \<and> tmp_live (snd (chroma_add_documents_from_files e w name paths chunk_size overlap encoding))
           = filter (\<lambda>d. d \<notin> set ds) (tmp_live w)"
    unfolding res snd_conv using d a b c f by (intro conjI)
  then show ?thesis by (intro exI)
qed

theorem scratch_dirs_released_witness:
  "fst (chroma_add_documents_from_files demo_env empty_world ''c''
          [''/data/pack.zip'', ''/data/locked.txt''] 2000 200 ''utf-8'') = Inl (LibraryError ''cannot open'')
   \<and> tmp_next (snd (chroma_add_documents_from_files demo_env empty_world ''c''
          [''/data/pack.zip'', ''/data/locked.txt''] 2000 200 ''utf-8'')) = 1
   \<and> tmp_live (snd (chroma_add_documents_from_files demo_env empty_world ''c''
          [''/data/pack.zip'', ''/data/locked.txt''] 2000 200 ''utf-8'')) = []"
proof -
  have a: "fst (chroma_add_documents_from_files demo_env empty_world ''c''
          [''/data/pack.zip'', ''/data/locked.txt''] 2000 200 ''utf-8'') = Inl (LibraryError ''cannot open'')"
    by (simp add: run_pack)
  have b: "tmp_next (snd (chroma_add_documents_from_files demo_env empty_world ''c''
          [''/data/pack.zip'', ''/data/locked.txt''] 2000 200 ''utf-8'')) = 1"
    by (simp add: run_pack)
  have c: "tmp_live empty_world = []" by (simp add: empty_world_def)
  obtain temp_dirs where
    "tmp_live (snd (chroma_add_documents_from_files demo_env empty_world ''c''
          [''/data/pack.zip'', ''/data/locked.txt''] 2000 200 ''utf-8''))
       = filter (\<lambda>d. d \<notin> set temp_dirs) (tmp_live empty_world)"
    using scratch_dirs_released[of demo_env "[''/data/pack.zip'', ''/data/locked.txt'']"
        empty_world "''c''" 2000 200 "''utf-8''"]
    by blast
  then have "tmp_live (snd (chroma_add_documents_from_files demo_env empty_world ''c''
          [''/data/pack.zip'', ''/data/locked.txt''] 2000 200 ''utf-8'')) = []"
    by (simp only: c filter.simps)
  with a b show ?thesis by (intro conjI)
qed

section \<open>Where the tool departs from the specification\<close>

text \<open>
  Claim C5 fails on the code: the tool never looks at the sign of \<open>chunk_size\<close> or
  \<open>overlap\<close>. With \<open>chunk_size = 0\<close> and \<open>overlap = -1\<close> it reads the file and adds
  a record, where \<^verbatim>\<open>chunk_text\<close> rejects both values.
\<close>

theorem ingest_accepts_invalid_chunk_parameters:
  "chroma_add_documents_from_files demo_env empty_world ''c'' [''/data/a.txt''] 0 (- 1) ''utf-8''
     = (Inr 1,
        empty_world\<lparr>collections := [''c'' \<mapsto> [(''a_chunk_0'', ''abcdefghij'',
           Some [(''file'', MStr ''/data/a.txt''), (''chunk_index'', MInt 0)])]]\<rparr>)
   \<and> chunk_text ''abcdefghij'' 0 (- 1) = Some (Inl ChunkSizeNotPositive)
   \<and> chunk_text ''abcdefghij'' 4 (- 1) = Some (Inl OverlapNegative)"
  by (simp add: model_defs demo_env_def empty_world_def str_nat_0 chunk_text_def)

text \<open>
  Claim C4 fails on the code: the loop emits the buffer only after a whole line is
  appended, so a record can be longer than \<open>chunk_size\<close>, and the overlap kept after
  the last emission is emitted once more at the end of the file. For a file of the
  one line \<open>abcdefghij\<close>, size 4 and overlap 1, the records are the whole line and
  \<open>j\<close>; \<^verbatim>\<open>chunk_text\<close> gives three pieces of four characters.
\<close>

theorem stream_text_differs_from_chunk_text:
  "chroma_add_documents_from_files demo_env empty_world ''c'' [''/data/a.txt''] 4 1 ''utf-8''
     = (Inr 2,
        empty_world\<lparr>collections := [''c'' \<mapsto>
          [(''a_chunk_0'', ''abcdefghij'',
              Some [(''file'', MStr ''/data/a.txt''), (''chunk_index'', MInt 0)]),
           (''a_chunk_1'', ''j'',
              Some [(''file'', MStr ''/data/a.txt''), (''chunk_index'', MInt 1)])]]\<rparr>)
   \<and> chunk_text ''abcdefghij'' 4 1 = Some (Inr [''abcd'', ''defg'', ''ghij''])"
  by (simp add: model_defs demo_env_def empty_world_def str_nat_0 str_nat_1 chunk_text_def
        chunk_loop.simps py_slice_def)

section \<open>The ids of CSV rows\<close>

lemma slices_append:
  "0 < n \<Longrightarrow> length xs = n \<Longrightarrow> slices n (xs @ ys) = xs # slices n ys"
  by (subst slices.simps) auto

lemma slices_short:
  "0 < n \<Longrightarrow> xs \<noteq> [] \<Longrightarrow> length xs \<le> n \<Longrightarrow> slices n xs = [xs]"
  by (subst slices.simps, subst slices.simps) auto

text \<open>
  Claim C2 fails on the code: the ids of a frame are numbered from 0 in every frame
  of \<open>CSV_CHUNK_ROWS\<close> rows. In a file of 1001 rows the last row is alone in the
  second frame and gets the id of the first row of the file.
\<close>

theorem csv_row_ids_restart_in_each_frame:
  "map (frame_ids ''/data/t.csv'') (slices CSV_CHUNK_ROWS (replicate 1000 ''x'' @ [''y'']))
     = [map (row_id ''/data/t.csv'') [0..<1000], [''t_row_0'']]"
proof -
  have s: "slices CSV_CHUNK_ROWS (replicate 1000 ''x'' @ [''y'']) = [replicate 1000 ''x'', [''y'']]"
    by (simp add: slices_append slices_short CSV_CHUNK_ROWS_def)
  have r: "row_id ''/data/t.csv'' 0 = ''t_row_0''"
    by (simp add: row_id_def path_stem_def path_name_def has_suffix_def after_last_dot_def
          str_nat_0)
  show ?thesis by (simp add: s frame_ids_def r)
qed

end
